theory Spec2Isabelle
  imports Main "HOL-Library.Sublist"
begin

section \<open>The course planner: data model\<close>

text \<open>
  The development embeds the selection engine of \<^verbatim>\<open>src/main.js\<close> (class
  \<^verbatim>\<open>CoursePlanner\<close>). A course is one entry of the catalog array. Credits are JSON
  numbers; they are modelled as unbounded integers. The two requisite lists may be absent
  from an entry (the source guards every use with a truthiness test), hence the option.
\<close>

record course =
  code :: string
  name :: string
  credits :: int
  type :: string
  category :: string
  prerequisites :: "string list option"
  corequisites :: "string list option"

text \<open>The object \<^verbatim>\<open>electiveTrailSelections\<close>: each field is \<^verbatim>\<open>null\<close> or a category.\<close>

record trailSelections =
  firstTrail :: "string option"
  thirdTrail :: "string option"

text \<open>
  The fields of the planner object that the engine reads or writes. \<^verbatim>\<open>selectedCourses\<close>
  is a JavaScript \<^verbatim>\<open>Set\<close>, which iterates in insertion order: it is a list here, kept
  free of duplicates by \<open>setAdd\<close>. The DOM handles, the theme and the two filter strings of
  the view are not part of the engine; \<^verbatim>\<open>updateStats\<close>, \<^verbatim>\<open>renderCourses\<close> and
  \<^verbatim>\<open>clearSearch\<close> only write to the DOM and are left out of \<open>addCourse\<close> and
  \<open>removeCourse\<close>.
\<close>

record planner =
  courses :: "course list"
  selectedCourses :: "string list"
  maxCredits :: int
  maxCourses :: int
  electiveTrailSelections :: trailSelections

text \<open>The result object of \<^verbatim>\<open>getSelectedElectiveTrails\<close>.\<close>

record electiveTrails =
  trailCourses :: "course list"
  trailCounts :: "string \<rightharpoonup> nat"
  firstTrailCourses :: nat
  thirdTrailCourses :: nat

section \<open>Primitives of the host language\<close>

text \<open>\<^verbatim>\<open>String.prototype.includes\<close>: \<open>t\<close> occurs in \<open>s\<close> as a contiguous substring.\<close>

fun startsWith :: "string \<Rightarrow> string \<Rightarrow> bool" where
  "startsWith s [] = True"
| "startsWith [] (y # ys) = False"
| "startsWith (x # xs) (y # ys) = (x = y \<and> startsWith xs ys)"

fun str_includes :: "string \<Rightarrow> string \<Rightarrow> bool" where
  "str_includes [] t = (t = [])"
| "str_includes (x # xs) t = (startsWith (x # xs) t \<or> str_includes xs t)"

text \<open>Truthiness of a value that is \<^verbatim>\<open>null\<close> or a string: the empty string is falsy.\<close>

definition truthy :: "string option \<Rightarrow> bool" where
  "truthy v = (case v of None \<Rightarrow> False | Some t \<Rightarrow> t \<noteq> [])"

text \<open>\<^verbatim>\<open>Set.prototype.add\<close> and \<^verbatim>\<open>Set.prototype.delete\<close> on the insertion-ordered list.\<close>

definition setAdd :: "string list \<Rightarrow> string \<Rightarrow> string list" where
  "setAdd xs x = (if x \<in> set xs then xs else xs @ [x])"

definition setDelete :: "string list \<Rightarrow> string \<Rightarrow> string list" where
  "setDelete xs x = removeAll x xs"

section \<open>The engine\<close>

text \<open>
  The constructor: the three alternative groups (a constant of the class), default caps 14
  and 8, nothing selected, no trail chosen.
\<close>

definition alternativeGroups :: "string list list" where
  "alternativeGroups =
     [[''POL101'', ''POL104''],
      [''ECO101'', ''ECO104''],
      [''SOC101'', ''ANT101'', ''ENV203'']]"

definition newPlanner :: "course list \<Rightarrow> planner" where
  "newPlanner coursesData =
     \<lparr>courses = coursesData, selectedCourses = [], maxCredits = 14, maxCourses = 8,
      electiveTrailSelections = \<lparr>firstTrail = None, thirdTrail = None\<rparr>\<rparr>"

text \<open>\<^verbatim>\<open>this.courses.find(c => c.code === code)\<close>: the first entry with that code.\<close>

definition findCourse :: "planner \<Rightarrow> string \<Rightarrow> course option" where
  "findCourse s k = find (\<lambda>c. code c = k) (courses s)"

definition getSelectedCredits :: "planner \<Rightarrow> int" where
  "getSelectedCredits s =
     fold (\<lambda>k total. case findCourse s k of None \<Rightarrow> total | Some c \<Rightarrow> total + credits c)
       (selectedCourses s) 0"

definition getSelectedCourseCount :: "planner \<Rightarrow> int" where
  "getSelectedCourseCount s = int (length (selectedCourses s))"

definition wouldViolateAlternatives :: "planner \<Rightarrow> string \<Rightarrow> bool" where
  "wouldViolateAlternatives s courseCode =
     (case find (\<lambda>g. courseCode \<in> set g) alternativeGroups of
        Some grp \<Rightarrow>
          list_ex (\<lambda>altCode. altCode \<noteq> courseCode \<and> altCode \<in> set (selectedCourses s)) grp
      | None \<Rightarrow> False)"

definition isCourseAvailable :: "planner \<Rightarrow> course \<Rightarrow> bool" where
  "isCourseAvailable s c =
     (if code c \<in> set (selectedCourses s) then False
      else if getSelectedCredits s + credits c > maxCredits s then False
      else if getSelectedCourseCount s + 1 > maxCourses s then False
      else if wouldViolateAlternatives s (code c) then False
      else True)"

text \<open>
  \<^verbatim>\<open>getSelectedElectiveTrails\<close>. The selected codes are resolved in the catalog, the
  unresolved ones and the courses outside a trail are dropped. \<^verbatim>\<open>trailCounts\<close> is an
  object used as a dictionary; a key that was never written reads as \<^verbatim>\<open>undefined\<close>,
  which is \<open>None\<close> here. (Every key written contains \<^verbatim>\<open>Trail\<close>, and so does every
  category stored in \<^verbatim>\<open>electiveTrailSelections\<close>, so no key meets a property
  inherited from \<^verbatim>\<open>Object.prototype\<close>.) \<open>countFor\<close> is the expression
  \<^verbatim>\<open>sel ? (trailCounts[sel] || 0) : 0\<close>.
\<close>

fun resolveTrailCourses :: "planner \<Rightarrow> string list \<Rightarrow> course list" where
  "resolveTrailCourses s [] = []"
| "resolveTrailCourses s (k # ks) =
     (case findCourse s k of
        None \<Rightarrow> resolveTrailCourses s ks
      | Some c \<Rightarrow>
          if str_includes (category c) ''Trail'' then c # resolveTrailCourses s ks
          else resolveTrailCourses s ks)"

definition countTrails :: "course list \<Rightarrow> (string \<rightharpoonup> nat)" where
  "countTrails cs =
     fold (\<lambda>c m. m(category c \<mapsto> (case m (category c) of None \<Rightarrow> 0 | Some n \<Rightarrow> n) + 1))
       cs Map.empty"

definition countFor :: "(string \<rightharpoonup> nat) \<Rightarrow> string option \<Rightarrow> nat" where
  "countFor counts v =
     (case v of
        None \<Rightarrow> 0
      | Some k \<Rightarrow> if k = [] then 0 else (case counts k of None \<Rightarrow> 0 | Some n \<Rightarrow> n))"

definition getSelectedElectiveTrails :: "planner \<Rightarrow> electiveTrails" where
  "getSelectedElectiveTrails s =
     (let tcs = resolveTrailCourses s (selectedCourses s);
          counts = countTrails tcs
      in \<lparr>trailCourses = tcs,
          trailCounts = counts,
          firstTrailCourses = countFor counts (firstTrail (electiveTrailSelections s)),
          thirdTrailCourses = countFor counts (thirdTrail (electiveTrailSelections s))\<rparr>)"

text \<open>The trail step of \<^verbatim>\<open>addCourse\<close>, on the counts taken before anything is added.\<close>

definition selectTrail :: "planner \<Rightarrow> course \<Rightarrow> trailSelections" where
  "selectTrail s c =
     (let t = getSelectedElectiveTrails s; sel = electiveTrailSelections s
      in if str_includes (category c) ''Trail'' then
           (if firstTrailCourses t < 2 \<and> \<not> truthy (firstTrail sel)
            then sel\<lparr>firstTrail := Some (category c)\<rparr>
            else if firstTrailCourses t \<ge> 2 \<and> thirdTrailCourses t = 0
                    \<and> \<not> truthy (thirdTrail sel)
            then sel\<lparr>thirdTrail := Some (category c)\<rparr>
            else sel)
         else sel)"

text \<open>The corequisite loop of \<^verbatim>\<open>addCourse\<close>: no test other than membership.\<close>

definition addCorequisites :: "string list option \<Rightarrow> string list \<Rightarrow> string list" where
  "addCorequisites cr sel =
     (case cr of
        None \<Rightarrow> sel
      | Some ds \<Rightarrow>
          if length ds > 0
          then fold (\<lambda>coreq acc. if coreq \<notin> set acc then setAdd acc coreq else acc) ds sel
          else sel)"

definition addCourse :: "planner \<Rightarrow> string \<Rightarrow> planner" where
  "addCourse s courseCode =
     (case findCourse s courseCode of
        None \<Rightarrow> s
      | Some c \<Rightarrow>
          s\<lparr>electiveTrailSelections := selectTrail s c,
            selectedCourses :=
              setAdd (addCorequisites (corequisites c) (selectedCourses s)) courseCode\<rparr>)"

text \<open>
  The trail step of \<^verbatim>\<open>removeCourse\<close>. \<^verbatim>\<open>trailCounts[category] - 1\<close> is \<^verbatim>\<open>NaN\<close>
  when the key is absent, and \<^verbatim>\<open>NaN <= 0\<close> is false: the \<open>None\<close> branch.
\<close>

definition lastOfTrail :: "electiveTrails \<Rightarrow> string \<Rightarrow> bool" where
  "lastOfTrail t k = (case trailCounts t k of None \<Rightarrow> False | Some n \<Rightarrow> int n - 1 \<le> 0)"

definition deselectTrail :: "planner \<Rightarrow> course \<Rightarrow> trailSelections" where
  "deselectTrail s c =
     (let t = getSelectedElectiveTrails s; sel = electiveTrailSelections s
      in if str_includes (category c) ''Trail'' then
           (let sel1 = (if firstTrail sel = Some (category c) \<and> lastOfTrail t (category c)
                        then sel\<lparr>firstTrail := None\<rparr> else sel)
            in if thirdTrail sel1 = Some (category c) \<and> lastOfTrail t (category c)
               then sel1\<lparr>thirdTrail := None\<rparr> else sel1)
         else sel)"

text \<open>
  The test inside the corequisite loop of \<^verbatim>\<open>removeCourse\<close>: some selected code other
  than the one being removed resolves to a course that lists \<open>coreq\<close>.
\<close>

definition listsCorequisite :: "planner \<Rightarrow> string \<Rightarrow> string \<Rightarrow> bool" where
  "listsCorequisite s k coreq =
     (case findCourse s k of
        None \<Rightarrow> False
      | Some c \<Rightarrow> (case corequisites c of None \<Rightarrow> False | Some ds \<Rightarrow> coreq \<in> set ds))"

definition manuallySelected :: "planner \<Rightarrow> string \<Rightarrow> string \<Rightarrow> string list \<Rightarrow> bool" where
  "manuallySelected s courseCode coreq sel =
     list_ex (\<lambda>k. if k = courseCode then False else listsCorequisite s k coreq) sel"

fun removeCorequisites :: "planner \<Rightarrow> string \<Rightarrow> string list \<Rightarrow> string list \<Rightarrow> string list"
  where
  "removeCorequisites s courseCode [] sel = sel"
| "removeCorequisites s courseCode (coreq # ds) sel =
     removeCorequisites s courseCode ds
       (if coreq \<in> set sel
        then (if \<not> manuallySelected s courseCode coreq sel then setDelete sel coreq else sel)
        else sel)"

definition removeCourse :: "planner \<Rightarrow> string \<Rightarrow> planner" where
  "removeCourse s courseCode =
     (case findCourse s courseCode of
        None \<Rightarrow> s
      | Some c \<Rightarrow>
          s\<lparr>electiveTrailSelections := deselectTrail s c,
            selectedCourses :=
              setDelete
                (case corequisites c of
                   None \<Rightarrow> selectedCourses s
                 | Some ds \<Rightarrow> removeCorequisites s courseCode ds (selectedCourses s))
                courseCode\<rparr>)"

text \<open>
  \<^verbatim>\<open>filterCourses\<close>. \<^verbatim>\<open>String.prototype.toLowerCase\<close> is the parameter \<open>lower\<close>: the
  results below hold whatever it computes.
\<close>

definition keepCourse ::
  "(string \<Rightarrow> string) \<Rightarrow> planner \<Rightarrow> electiveTrails \<Rightarrow> string \<Rightarrow> string \<Rightarrow> string \<Rightarrow> course \<Rightarrow> bool"
  where
  "keepCourse lower s t searchTerm categoryFilter typeFilter c =
     (if searchTerm \<noteq> [] \<and>
         \<not> str_includes (lower (code c)) (lower searchTerm) \<and>
         \<not> str_includes (lower (name c)) (lower searchTerm) \<and>
         \<not> str_includes (lower (category c)) (lower searchTerm) then False
      else if categoryFilter \<noteq> [] \<and> category c \<noteq> categoryFilter then False
      else if typeFilter \<noteq> [] \<and> type c \<noteq> typeFilter then False
      else if str_includes (category c) ''Trail'' \<and>
              truthy (firstTrail (electiveTrailSelections s)) \<and>
              firstTrailCourses t < 2 \<and>
              Some (category c) \<noteq> firstTrail (electiveTrailSelections s) then False
      else True)"

definition filterCourses ::
  "(string \<Rightarrow> string) \<Rightarrow> planner \<Rightarrow> course list \<Rightarrow> string \<Rightarrow> string \<Rightarrow> string \<Rightarrow> course list"
  where
  "filterCourses lower s cs searchTerm categoryFilter typeFilter =
     filter (keepCourse lower s (getSelectedElectiveTrails s) searchTerm categoryFilter typeFilter)
       cs"

section \<open>Sequences of calls\<close>

text \<open>
  The view calls \<open>addCourse\<close> from a card of a catalog course, and only when
  \<open>isCourseAvailable\<close> held for that course at the last rendering, which follows every
  change. \<open>gatedAdds\<close> says that a sequence of additions respects this gate, \<open>addAll\<close>
  performs it.
\<close>

fun addAll :: "planner \<Rightarrow> course list \<Rightarrow> planner" where
  "addAll s [] = s"
| "addAll s (c # cs) = addAll (addCourse s (code c)) cs"

fun gatedAdds :: "planner \<Rightarrow> course list \<Rightarrow> bool" where
  "gatedAdds s [] = True"
| "gatedAdds s (c # cs) =
     (c \<in> set (courses s) \<and> isCourseAvailable s c \<and> gatedAdds (addCourse s (code c)) cs)"

text \<open>The corequisite codes of a course, an absent list read as empty.\<close>

definition corequisitesOf :: "course \<Rightarrow> string list" where
  "corequisitesOf c = (case corequisites c of None \<Rightarrow> [] | Some ds \<Rightarrow> ds)"

text \<open>
  The corequisites that a call of \<open>addCourse\<close> on \<open>c\<close> brings along: the codes listed by
  \<open>c\<close> that are not selected yet, other than the code of \<open>c\<close> itself, each once.
\<close>

definition autoAdded :: "planner \<Rightarrow> course \<Rightarrow> string list" where
  "autoAdded s c =
     remdups (filter (\<lambda>d. d \<notin> set (selectedCourses s) \<and> d \<noteq> code c) (corequisitesOf c))"

text \<open>Additions and removals mixed; a removal is not gated.\<close>

datatype event = Add course | Remove string

fun step :: "planner \<Rightarrow> event \<Rightarrow> planner" where
  "step s (Add c) = addCourse s (code c)"
| "step s (Remove k) = removeCourse s k"

fun run :: "planner \<Rightarrow> event list \<Rightarrow> planner" where
  "run s [] = s"
| "run s (e # es) = run (step s e) es"

fun gated :: "planner \<Rightarrow> event list \<Rightarrow> bool" where
  "gated s [] = True"
| "gated s (Add c # es) =
     (c \<in> set (courses s) \<and> isCourseAvailable s c \<and> gated (addCourse s (code c)) es)"
| "gated s (Remove k # es) = gated (removeCourse s k) es"

text \<open>At most one code of the group is selected.\<close>

definition exclusive :: "string list \<Rightarrow> string list \<Rightarrow> bool" where
  "exclusive g sel = (\<forall>a \<in> set g. \<forall>b \<in> set g. a \<in> set sel \<and> b \<in> set sel \<longrightarrow> a = b)"

section \<open>Catalogs of the scenarios\<close>

definition mkCourse :: "string \<Rightarrow> int \<Rightarrow> string \<Rightarrow> string list option \<Rightarrow> course" where
  "mkCourse k cr cat crq =
     \<lparr>code = k, name = k, credits = cr, type = ''theory'', category = cat,
      prerequisites = None, corequisites = crq\<rparr>"

text \<open>Scenario A: the two political-science alternatives, 3 credits each.\<close>

definition pol101 :: course where
  "pol101 = mkCourse ''POL101'' 3 ''University Core'' None"

definition pol104 :: course where
  "pol104 = mkCourse ''POL104'' 3 ''University Core'' None"

definition scenarioA :: "course list" where
  "scenarioA = [pol101, pol104]"

text \<open>Scenario B with three more courses: a lecture with its laboratory as corequisite.\<close>

definition cse470 :: course where
  "cse470 = mkCourse ''CSE470'' 3 ''CSE Core'' (Some [''CSE470L''])"

definition cse470L :: course where
  "cse470L = mkCourse ''CSE470L'' 1 ''CSE Core'' (Some [])"

definition cse215 :: course where
  "cse215 = mkCourse ''CSE215'' 4 ''CSE Core'' None"

definition cse225 :: course where
  "cse225 = mkCourse ''CSE225'' 4 ''CSE Core'' None"

definition mat250 :: course where
  "mat250 = mkCourse ''MAT250'' 3 ''SEPS Core'' None"

definition scenarioB :: "course list" where
  "scenarioB = [cse215, cse225, mat250, cse470, cse470L]"

text \<open>Scenario C: courses of three trails, 3 credits each.\<close>

definition ai1 :: course where
  "ai1 = mkCourse ''CSE440'' 3 ''AI Trail'' None"

definition ai2 :: course where
  "ai2 = mkCourse ''CSE445'' 3 ''AI Trail'' None"

definition ai3 :: course where
  "ai3 = mkCourse ''CSE465'' 3 ''AI Trail'' None"

definition net1 :: course where
  "net1 = mkCourse ''CSE338'' 3 ''Networks Trail'' None"

definition bio1 :: course where
  "bio1 = mkCourse ''CSE419'' 3 ''Bioinformatics Trail'' None"

definition scenarioC :: "course list" where
  "scenarioC = [ai1, ai2, ai3, net1, bio1]"

text \<open>A course outside every group whose corequisite is a member of a group.\<close>

definition his205 :: course where
  "his205 = mkCourse ''HIS205'' 3 ''University Core'' (Some [''POL104''])"

definition withGroupCorequisite :: "course list" where
  "withGroupCorequisite = [pol101, pol104, his205]"

text \<open>A course with two corequisites, the second of which lists the first.\<close>

definition phy107 :: course where
  "phy107 = mkCourse ''PHY107'' 3 ''SEPS Core'' (Some [''PHY107L'', ''PHY107T''])"

definition phy107L :: course where
  "phy107L = mkCourse ''PHY107L'' 1 ''SEPS Core'' None"

definition phy107T :: course where
  "phy107T = mkCourse ''PHY107T'' 0 ''SEPS Core'' (Some [''PHY107L''])"

definition nestedCorequisites :: "course list" where
  "nestedCorequisites = [phy107, phy107L, phy107T]"

text \<open>The same catalog with the two corequisites of \<^verbatim>\<open>PHY107\<close> in the other order.\<close>

definition phy107swapped :: course where
  "phy107swapped = mkCourse ''PHY107'' 3 ''SEPS Core'' (Some [''PHY107T'', ''PHY107L''])"

definition swappedCorequisites :: "course list" where
  "swappedCorequisites = [phy107swapped, phy107L, phy107T]"

text \<open>Two lectures that list the same laboratory.\<close>

definition cse471 :: course where
  "cse471 = mkCourse ''CSE471'' 3 ''CSE Core'' (Some [''CSE470L''])"

definition sharedLaboratory :: "course list" where
  "sharedLaboratory = [cse470, cse471, cse470L]"

text \<open>A catalog in which the laboratory listed by \<^verbatim>\<open>CSE470\<close> has no entry.\<close>

definition labNotInCatalog :: "course list" where
  "labNotInCatalog = [cse215, cse470]"

section \<open>Basic facts\<close>

lemma set_setAdd: "set (setAdd xs x) = insert x (set xs)"
  by (auto simp: setAdd_def)

lemma set_setDelete: "set (setDelete xs x) = set xs - {x}"
  by (simp add: setDelete_def)

lemma distinct_setAdd: "distinct xs \<Longrightarrow> distinct (setAdd xs x)"
  by (simp add: setAdd_def)

lemma distinct_setDelete: "distinct xs \<Longrightarrow> distinct (setDelete xs x)"
  by (simp add: setDelete_def distinct_removeAll)

lemma fold_coreq_set:
  "set (fold (\<lambda>coreq acc. if coreq \<notin> set acc then setAdd acc coreq else acc) ds sel)
     = set sel \<union> set ds"
  by (induction ds arbitrary: sel) (auto simp: set_setAdd)

lemma fold_coreq_distinct:
  "distinct sel \<Longrightarrow>
   distinct (fold (\<lambda>coreq acc. if coreq \<notin> set acc then setAdd acc coreq else acc) ds sel)"
  by (induction ds arbitrary: sel) (auto simp: distinct_setAdd)

lemma set_addCorequisites:
  "set (addCorequisites (corequisites c) sel) = set sel \<union> set (corequisitesOf c)"
  by (cases "corequisites c") (auto simp: addCorequisites_def corequisitesOf_def fold_coreq_set)

lemma distinct_addCorequisites: "distinct sel \<Longrightarrow> distinct (addCorequisites cr sel)"
  by (cases cr) (auto simp: addCorequisites_def fold_coreq_distinct)

lemma findCourse_None_iff: "findCourse s k = None \<longleftrightarrow> k \<notin> code ` set (courses s)"
  by (auto simp: findCourse_def find_None_iff)

lemma find_first_code:
  "distinct (map code cs) \<Longrightarrow> c \<in> set cs \<Longrightarrow> find (\<lambda>x. code x = code c) cs = Some c"
  by (induction cs) (auto simp: rev_image_eqI)

lemma findCourse_catalog:
  "distinct (map code (courses s)) \<Longrightarrow> c \<in> set (courses s) \<Longrightarrow> findCourse s (code c) = Some c"
  by (simp add: findCourse_def find_first_code)

lemma findCourse_code: "findCourse s k = Some c \<Longrightarrow> code c = k"
  by (auto simp: findCourse_def find_Some_iff)

lemma findCourse_mem: "findCourse s k = Some c \<Longrightarrow> c \<in> set (courses s)"
  by (auto simp: findCourse_def find_Some_iff)

lemma selected_addCourse:
  "findCourse s k = Some c \<Longrightarrow>
   set (selectedCourses (addCourse s k)) = set (selectedCourses s) \<union> set (corequisitesOf c) \<union> {k}"
  by (auto simp: addCourse_def set_setAdd set_addCorequisites)

text \<open>
  The three groups of the class are pairwise disjoint, so the first group that contains a
  code is the only one: \<open>wouldViolateAlternatives\<close> tests every group of the code.
\<close>

lemma wouldViolateAlternatives_iff:
  "wouldViolateAlternatives s k \<longleftrightarrow>
     (\<exists>g \<in> set alternativeGroups. k \<in> set g \<and>
        (\<exists>d \<in> set g. d \<noteq> k \<and> d \<in> set (selectedCourses s)))"
  unfolding wouldViolateAlternatives_def alternativeGroups_def
  by (auto simp: list_ex_iff)

section \<open>Adding a course\<close>

text \<open>
  C3. For every catalog course \<open>c\<close> (codes being unique in the catalog) and every state,
  whatever the caps, the selection and the alternative groups are, the codes selected after
  \<open>addCourse\<close> on the code of \<open>c\<close> are the ones selected before, every corequisite of \<open>c\<close>,
  and the code itself: the corequisites are added without any test.
\<close>

theorem addCourse_adds_corequisites:
  assumes "distinct (map code (courses s))" and "c \<in> set (courses s)"
  shows "set (selectedCourses (addCourse s (code c)))
           = set (selectedCourses s) \<union> set (corequisitesOf c) \<union> {code c}"
  using assms by (simp add: selected_addCourse findCourse_catalog)

text \<open>
  With the credit cap lowered to the 11 credits already selected, neither \<^verbatim>\<open>CSE470\<close> nor
  its laboratory is available, and \<open>addCourse\<close> selects both.
\<close>

theorem addCourse_adds_corequisites_witness:
  "distinct (map code (courses ((newPlanner scenarioB)
      \<lparr>selectedCourses := [''CSE215'', ''CSE225'', ''MAT250''], maxCredits := 11\<rparr>))) \<and>
   cse470 \<in> set (courses ((newPlanner scenarioB)
      \<lparr>selectedCourses := [''CSE215'', ''CSE225'', ''MAT250''], maxCredits := 11\<rparr>)) \<and>
   \<not> isCourseAvailable ((newPlanner scenarioB)
      \<lparr>selectedCourses := [''CSE215'', ''CSE225'', ''MAT250''], maxCredits := 11\<rparr>) cse470L \<and>
   set (selectedCourses (addCourse ((newPlanner scenarioB)
      \<lparr>selectedCourses := [''CSE215'', ''CSE225'', ''MAT250''], maxCredits := 11\<rparr>) ''CSE470''))
     = {''CSE215'', ''CSE225'', ''MAT250'', ''CSE470L'', ''CSE470''}"
proof -
  let ?s = "(newPlanner scenarioB)
      \<lparr>selectedCourses := [''CSE215'', ''CSE225'', ''MAT250''], maxCredits := 11\<rparr>"
  have h1: "distinct (map code (courses ?s))" by code_simp
  have h2: "cse470 \<in> set (courses ?s)" by code_simp
  have h3: "\<not> isCourseAvailable ?s cse470L" by code_simp
  have c: "code cse470 = ''CSE470''" by (simp add: cse470_def mkCourse_def)
  have r: "corequisitesOf cse470 = [''CSE470L'']"
    by (simp add: cse470_def mkCourse_def corequisitesOf_def)
  from addCourse_adds_corequisites [OF h1 h2] h1 h2 h3 show ?thesis
    unfolding c r by auto
qed

section \<open>Unknown codes\<close>

text \<open>
  C8. For a code that no catalog course has, \<open>addCourse\<close> and \<open>removeCourse\<close> return the
  state they were given: selection, trail choices and caps are all unchanged. Both are total
  functions; the source returns at once when \<^verbatim>\<open>find\<close> yields \<^verbatim>\<open>undefined\<close>.
\<close>

theorem unknown_code_is_ignored:
  "k \<notin> code ` set (courses s) \<Longrightarrow> addCourse s k = s \<and> removeCourse s k = s"
  by (simp add: addCourse_def removeCourse_def findCourse_None_iff [symmetric])

theorem unknown_code_is_ignored_witness:
  "''XYZ999'' \<notin> code ` set (courses (newPlanner scenarioA)) \<and>
   addCourse (newPlanner scenarioA) ''XYZ999'' = newPlanner scenarioA \<and>
   removeCourse (newPlanner scenarioA) ''XYZ999'' = newPlanner scenarioA"
proof -
  have h: "''XYZ999'' \<notin> code ` set (courses (newPlanner scenarioA))"
    by (simp add: newPlanner_def scenarioA_def pol101_def pol104_def mkCourse_def)
  from unknown_code_is_ignored [OF h] h show ?thesis by simp
qed

section \<open>Codes that do not resolve\<close>

lemma courses_addCourse: "courses (addCourse s k) = courses s"
  by (simp add: addCourse_def split: option.splits)

lemma courses_removeCourse: "courses (removeCourse s k) = courses s"
  by (simp add: removeCourse_def split: option.splits)

lemma findCourse_cong: "courses t = courses s \<Longrightarrow> findCourse t = findCourse s"
  by (auto simp: findCourse_def fun_eq_iff)

lemma fold_credits:
  "fold (\<lambda>k total. case findCourse s k of None \<Rightarrow> total | Some c \<Rightarrow> total + credits c) ks acc
     = acc + sum_list (map credits (List.map_filter (findCourse s) ks))"
  by (induction ks arbitrary: acc) (auto simp: List.map_filter_simps split: option.splits)

lemma getSelectedCredits_resolved:
  "getSelectedCredits s = sum_list (map credits (List.map_filter (findCourse s) (selectedCourses s)))"
  by (simp add: getSelectedCredits_def fold_credits)

lemma map_filter_unresolved:
  "f d = None \<Longrightarrow> List.map_filter f (removeAll d ks) = List.map_filter f ks"
  by (induction ks) (auto simp: List.map_filter_simps split: option.splits)

lemma credits_without_unresolved:
  "findCourse s d = None \<Longrightarrow>
   getSelectedCredits (s\<lparr>selectedCourses := setDelete (selectedCourses s) d\<rparr>) = getSelectedCredits s"
  by (simp add: getSelectedCredits_resolved setDelete_def map_filter_unresolved
      findCourse_cong [of "s\<lparr>selectedCourses := removeAll d (selectedCourses s)\<rparr>" s])

lemma resolveTrailCourses_cong:
  "courses t = courses s \<Longrightarrow> resolveTrailCourses t ks = resolveTrailCourses s ks"
  by (induction ks) (auto simp: findCourse_def split: option.splits)

lemma resolveTrailCourses_unresolved:
  "findCourse s d = None \<Longrightarrow> resolveTrailCourses s (removeAll d ks) = resolveTrailCourses s ks"
  by (induction ks) (auto split: option.splits)

lemma trails_without_unresolved:
  "findCourse s d = None \<Longrightarrow>
   getSelectedElectiveTrails (s\<lparr>selectedCourses := setDelete (selectedCourses s) d\<rparr>)
     = getSelectedElectiveTrails s"
  by (simp add: getSelectedElectiveTrails_def setDelete_def resolveTrailCourses_unresolved
      resolveTrailCourses_cong [of "s\<lparr>selectedCourses := removeAll d (selectedCourses s)\<rparr>" s])

text \<open>
  C9. Let a catalog course \<open>c\<close> list a corequisite \<open>d\<close> that no catalog entry has. Then
  \<open>addCourse\<close> on \<open>c\<close> selects \<open>d\<close> all the same, and in every state over that catalog:
  \<open>getSelectedCredits\<close> is the sum of the credits of the selected codes that resolve, so it
  is the same with and without \<open>d\<close>; the trail counts are the same with and without \<open>d\<close>;
  \<open>d\<close> is never found to list a corequisite; and adding or removing \<open>d\<close> itself changes
  nothing. All these functions are total: each lookup has its branch for a missing entry.
\<close>

theorem corequisite_without_entry:
  assumes "distinct (map code (courses s))" and "c \<in> set (courses s)"
    and "d \<in> set (corequisitesOf c)" and "d \<notin> code ` set (courses s)"
  shows "d \<in> set (selectedCourses (addCourse s (code c))) \<and>
    (\<forall>t. courses t = courses s \<longrightarrow>
       getSelectedCredits t
         = sum_list (map credits (List.map_filter (findCourse t) (selectedCourses t))) \<and>
       getSelectedCredits (t\<lparr>selectedCourses := setDelete (selectedCourses t) d\<rparr>)
         = getSelectedCredits t \<and>
       getSelectedElectiveTrails (t\<lparr>selectedCourses := setDelete (selectedCourses t) d\<rparr>)
         = getSelectedElectiveTrails t \<and>
       (\<forall>x. \<not> listsCorequisite t d x) \<and>
       addCourse t d = t \<and> removeCourse t d = t)"
proof (intro conjI allI impI)
  show "d \<in> set (selectedCourses (addCourse s (code c)))"
    using assms(1-3) by (simp add: selected_addCourse findCourse_catalog)
next
  fix t :: planner assume "courses t = courses s"
  then have n: "findCourse t d = None"
    using assms(4) by (simp add: findCourse_None_iff)
  show "getSelectedCredits t
         = sum_list (map credits (List.map_filter (findCourse t) (selectedCourses t)))"
    by (rule getSelectedCredits_resolved)
  show "getSelectedCredits (t\<lparr>selectedCourses := setDelete (selectedCourses t) d\<rparr>)
         = getSelectedCredits t"
    using n by (rule credits_without_unresolved)
  show "getSelectedElectiveTrails (t\<lparr>selectedCourses := setDelete (selectedCourses t) d\<rparr>)
         = getSelectedElectiveTrails t"
    using n by (rule trails_without_unresolved)
  show "\<not> listsCorequisite t d x" for x
    using n by (simp add: listsCorequisite_def)
  show "addCourse t d = t" using n by (simp add: addCourse_def)
  show "removeCourse t d = t" using n by (simp add: removeCourse_def)
qed

text \<open>The laboratory of \<^verbatim>\<open>CSE470\<close> without a catalog entry: selected, worth no credit.\<close>

theorem corequisite_without_entry_witness:
  "distinct (map code (courses (newPlanner labNotInCatalog))) \<and>
   cse470 \<in> set (courses (newPlanner labNotInCatalog)) \<and>
   ''CSE470L'' \<in> set (corequisitesOf cse470) \<and>
   ''CSE470L'' \<notin> code ` set (courses (newPlanner labNotInCatalog)) \<and>
   ''CSE470L'' \<in> set (selectedCourses (addCourse (newPlanner labNotInCatalog) (code cse470))) \<and>
   getSelectedCredits (addCourse (newPlanner labNotInCatalog) (code cse470)) = 3 \<and>
   removeCourse (addCourse (newPlanner labNotInCatalog) (code cse470)) ''CSE470L''
     = addCourse (newPlanner labNotInCatalog) (code cse470)"
proof -
  let ?s = "newPlanner labNotInCatalog"
  let ?t = "addCourse ?s (code cse470)"
  have h1: "distinct (map code (courses ?s))" by code_simp
  have h2: "cse470 \<in> set (courses ?s)" by code_simp
  have h3: "''CSE470L'' \<in> set (corequisitesOf cse470)" by code_simp
  have h4: "''CSE470L'' \<notin> code ` set (courses ?s)"
    by (simp add: newPlanner_def labNotInCatalog_def cse215_def cse470_def mkCourse_def)
  have ct: "courses ?t = courses ?s" by (rule courses_addCourse)
  have v: "getSelectedCredits (?t\<lparr>selectedCourses := setDelete (selectedCourses ?t) ''CSE470L''\<rparr>) = 3"
    by code_simp
  note w = corequisite_without_entry [OF h1 h2 h3 h4]
  from w have a: "''CSE470L'' \<in> set (selectedCourses ?t)" by (rule conjunct1)
  from w have "courses ?t = courses ?s \<longrightarrow>
       getSelectedCredits ?t
         = sum_list (map credits (List.map_filter (findCourse ?t) (selectedCourses ?t))) \<and>
       getSelectedCredits (?t\<lparr>selectedCourses := setDelete (selectedCourses ?t) ''CSE470L''\<rparr>)
         = getSelectedCredits ?t \<and>
       getSelectedElectiveTrails (?t\<lparr>selectedCourses := setDelete (selectedCourses ?t) ''CSE470L''\<rparr>)
         = getSelectedElectiveTrails ?t \<and>
       (\<forall>x. \<not> listsCorequisite ?t ''CSE470L'' x) \<and>
       addCourse ?t ''CSE470L'' = ?t \<and> removeCourse ?t ''CSE470L'' = ?t"
    by (rule conjunct2 [THEN spec])
  with ct have b: "getSelectedCredits (?t\<lparr>selectedCourses := setDelete (selectedCourses ?t) ''CSE470L''\<rparr>)
         = getSelectedCredits ?t"
    and e: "removeCourse ?t ''CSE470L'' = ?t"
    by blast+
  from b v have b': "getSelectedCredits ?t = 3" by (rule trans [OF sym])
  from h1 h2 h3 h4 a b' e show ?thesis by (intro conjI)
qed

section \<open>Availability\<close>

text \<open>
  C2. For every course \<open>c\<close> and every state (the selected set without duplicates, as a
  \<^verbatim>\<open>Set\<close> is), \<open>isCourseAvailable\<close> is false exactly when the code of \<open>c\<close> is selected,
  or the sum of the catalog credits of the selected codes (a code without catalog entry
  counting nothing) plus the credits of \<open>c\<close> exceeds \<open>maxCredits\<close>, or the number of
  selected codes plus one exceeds \<open>maxCourses\<close>, or another member of an alternative group
  of \<open>c\<close> is selected; otherwise it is true.
\<close>

theorem isCourseAvailable_false_iff:
  assumes "distinct (selectedCourses s)"
  shows "\<not> isCourseAvailable s c \<longleftrightarrow>
     code c \<in> set (selectedCourses s)
     \<or> (\<Sum>x\<leftarrow>List.map_filter (\<lambda>k. find (\<lambda>x. code x = k) (courses s)) (selectedCourses s).
           credits x) + credits c > maxCredits s
     \<or> int (card (set (selectedCourses s))) + 1 > maxCourses s
     \<or> (\<exists>g \<in> set alternativeGroups. code c \<in> set g \<and>
           (\<exists>d \<in> set g. d \<noteq> code c \<and> d \<in> set (selectedCourses s)))"
proof -
  have "getSelectedCredits s
      = (\<Sum>x\<leftarrow>List.map_filter (\<lambda>k. find (\<lambda>x. code x = k) (courses s)) (selectedCourses s).
           credits x)"
    unfolding getSelectedCredits_resolved findCourse_def ..
  with assms show ?thesis
    by (simp add: isCourseAvailable_def getSelectedCourseCount_def distinct_card
        wouldViolateAlternatives_iff)
qed

text \<open>
  Three instances. Scenario A after the first step: \<^verbatim>\<open>POL101\<close> is selected, so
  \<^verbatim>\<open>POL104\<close> is refused. Scenario D: with 12 credits selected a course of 3 credits is
  refused. With 8 credits selected the same course is available.
\<close>

theorem isCourseAvailable_false_iff_witness:
  "distinct (selectedCourses (addCourse (newPlanner scenarioA) ''POL101'')) \<and>
   \<not> isCourseAvailable (addCourse (newPlanner scenarioA) ''POL101'') pol104 \<and>
   distinct (selectedCourses (addAll (newPlanner scenarioB) [cse215, cse225, cse470])) \<and>
   (\<Sum>x\<leftarrow>List.map_filter
        (\<lambda>k. find (\<lambda>x. code x = k) (courses (addAll (newPlanner scenarioB) [cse215, cse225, cse470])))
        (selectedCourses (addAll (newPlanner scenarioB) [cse215, cse225, cse470])). credits x) = 12 \<and>
   \<not> isCourseAvailable (addAll (newPlanner scenarioB) [cse215, cse225, cse470]) mat250 \<and>
   distinct (selectedCourses (addAll (newPlanner scenarioB) [cse215, cse225])) \<and>
   isCourseAvailable (addAll (newPlanner scenarioB) [cse215, cse225]) mat250"
proof -
  let ?s = "addCourse (newPlanner scenarioA) ''POL101''"
  let ?t = "addAll (newPlanner scenarioB) [cse215, cse225, cse470]"
  let ?u = "addAll (newPlanner scenarioB) [cse215, cse225]"
  have h: "distinct (selectedCourses ?s)" by code_simp
  have g: "[''POL101'', ''POL104''] \<in> set alternativeGroups"
    by (simp add: alternativeGroups_def)
  have c: "code pol104 = ''POL104''" by (simp add: pol104_def mkCourse_def)
  have m: "''POL101'' \<in> set (selectedCourses ?s)" by code_simp
  have "\<exists>g \<in> set alternativeGroups. code pol104 \<in> set g \<and>
           (\<exists>d \<in> set g. d \<noteq> code pol104 \<and> d \<in> set (selectedCourses ?s))"
    using g m unfolding c
    by (intro bexI [of _ "[''POL101'', ''POL104'']"] conjI bexI [of _ "''POL101''"]) simp_all
  with isCourseAvailable_false_iff [OF h, of pol104]
  have a: "\<not> isCourseAvailable ?s pol104" by blast
  have ht: "distinct (selectedCourses ?t)" by code_simp
  have st: "(\<Sum>x\<leftarrow>List.map_filter (\<lambda>k. find (\<lambda>x. code x = k) (courses ?t)) (selectedCourses ?t).
        credits x) = 12" by code_simp
  have "credits mat250 = 3" "maxCredits ?t = 14" by code_simp+
  with st have "(\<Sum>x\<leftarrow>List.map_filter (\<lambda>k. find (\<lambda>x. code x = k) (courses ?t)) (selectedCourses ?t).
        credits x) + credits mat250 > maxCredits ?t" by simp
  with isCourseAvailable_false_iff [OF ht, of mat250]
  have b: "\<not> isCourseAvailable ?t mat250" by blast
  have hu: "distinct (selectedCourses ?u)" by code_simp
  have "\<not> (code mat250 \<in> set (selectedCourses ?u)
     \<or> (\<Sum>x\<leftarrow>List.map_filter (\<lambda>k. find (\<lambda>x. code x = k) (courses ?u)) (selectedCourses ?u).
           credits x) + credits mat250 > maxCredits ?u
     \<or> int (card (set (selectedCourses ?u))) + 1 > maxCourses ?u
     \<or> (\<exists>g \<in> set alternativeGroups. code mat250 \<in> set g \<and>
           (\<exists>d \<in> set g. d \<noteq> code mat250 \<and> d \<in> set (selectedCourses ?u))))"
    by code_simp
  with isCourseAvailable_false_iff [OF hu, of mat250]
  have d: "isCourseAvailable ?u mat250" by blast
  from h a ht st b hu d show ?thesis by (intro conjI)
qed

section \<open>Removing a course\<close>

lemma manuallySelected_iff:
  "manuallySelected s k d sel \<longleftrightarrow> (\<exists>e \<in> set sel. e \<noteq> k \<and> listsCorequisite s e d)"
  by (auto simp: manuallySelected_def list_ex_iff)

lemma removeCorequisites_subset: "set (removeCorequisites s k ds sel) \<subseteq> set sel"
proof (induction ds arbitrary: sel)
  case Nil
  show ?case by simp
next
  case (Cons d ds)
  have "set (removeCorequisites s k ds sel') \<subseteq> set sel" if "set sel' \<subseteq> set sel" for sel'
    using Cons.IH [of sel'] that by blast
  then show ?case by (simp add: set_setDelete Diff_subset)
qed

lemma removeCorequisites_keeps:
  "x \<in> set sel \<Longrightarrow> x \<notin> set ds \<Longrightarrow> x \<in> set (removeCorequisites s k ds sel)"
  by (induction ds arbitrary: sel) (auto simp: set_setDelete)

lemma removeCorequisites_removes:
  "d \<in> set ds \<Longrightarrow> \<not> (\<exists>e \<in> set sel. e \<noteq> k \<and> listsCorequisite s e d) \<Longrightarrow>
   d \<notin> set (removeCorequisites s k ds sel)"
proof (induction ds arbitrary: sel)
  case Nil
  then show ?case by simp
next
  case (Cons x ds)
  let ?sel1 = "if x \<in> set sel
        then (if \<not> manuallySelected s k x sel then setDelete sel x else sel) else sel"
  have sub: "set ?sel1 \<subseteq> set sel" by (auto simp: set_setDelete)
  have res: "removeCorequisites s k (x # ds) sel = removeCorequisites s k ds ?sel1" by simp
  show ?case
  proof (cases "d \<in> set ds")
    case True
    from Cons.prems(2) sub
    have "\<not> (\<exists>e \<in> set ?sel1. e \<noteq> k \<and> listsCorequisite s e d)" by blast
    from Cons.IH [OF True this] show ?thesis unfolding res .
  next
    case False
    with Cons.prems(1) have xd: "x = d" by simp
    have "d \<notin> set ?sel1"
      using Cons.prems(2) by (auto simp: xd set_setDelete manuallySelected_iff)
    with removeCorequisites_subset [of s k ds ?sel1]
    have "d \<notin> set (removeCorequisites s k ds ?sel1)" by blast
    then show ?thesis unfolding res .
  qed
qed

lemma selected_removeCourse:
  "findCourse s k = Some c \<Longrightarrow>
   selectedCourses (removeCourse s k)
     = setDelete (removeCorequisites s k (corequisitesOf c) (selectedCourses s)) k"
  by (cases "corequisites c") (simp_all add: removeCourse_def corequisitesOf_def)

lemma removeCorequisites_stays:
  "d \<in> set sel \<Longrightarrow> \<exists>e \<in> set sel. e \<noteq> k \<and> listsCorequisite s e d \<Longrightarrow>
   \<forall>e \<in> set ds. \<not> listsCorequisite s e d \<Longrightarrow>
   d \<in> set (removeCorequisites s k ds sel)"
proof (induction ds arbitrary: sel)
  case Nil
  then show ?case by simp
next
  case (Cons x ds)
  let ?sel1 = "if x \<in> set sel
        then (if \<not> manuallySelected s k x sel then setDelete sel x else sel) else sel"
  have res: "removeCorequisites s k (x # ds) sel = removeCorequisites s k ds ?sel1" by simp
  from Cons.prems(3) have nx: "\<not> listsCorequisite s x d" by simp
  from Cons.prems(2) obtain e where e: "e \<in> set sel" "e \<noteq> k" "listsCorequisite s e d"
    by blast
  with nx have "e \<noteq> x" by blast
  with e have m: "\<exists>e \<in> set ?sel1. e \<noteq> k \<and> listsCorequisite s e d"
    by (auto simp: set_setDelete)
  have d: "d \<in> set ?sel1"
    using Cons.prems(1,2) by (auto simp: set_setDelete manuallySelected_iff)
  from Cons.prems(3) have "\<forall>e \<in> set ds. \<not> listsCorequisite s e d" by simp
  from Cons.IH [OF d m this] show ?case unfolding res .
qed

text \<open>
  C10. \<open>removeCourse\<close> does not test that its argument is selected. For every catalog
  course \<open>c\<close> (codes being unique) whose code is not selected, it still removes every
  corequisite of \<open>c\<close> that no selected course other than \<open>c\<close> lists, and every selected
  code that is not a corequisite of \<open>c\<close> stays selected.
\<close>

theorem removeCourse_of_unselected:
  assumes "distinct (map code (courses s))" and "c \<in> set (courses s)"
    and "code c \<notin> set (selectedCourses s)"
  shows "(\<forall>d \<in> set (corequisitesOf c).
            \<not> (\<exists>e \<in> set (selectedCourses s). e \<noteq> code c \<and> listsCorequisite s e d) \<longrightarrow>
            d \<notin> set (selectedCourses (removeCourse s (code c)))) \<and>
         (\<forall>x \<in> set (selectedCourses s).
            x \<notin> set (corequisitesOf c) \<longrightarrow> x \<in> set (selectedCourses (removeCourse s (code c))))"
proof -
  from assms(1,2) have f: "findCourse s (code c) = Some c" by (rule findCourse_catalog)
  note sel = selected_removeCourse [OF f]
  show ?thesis
  proof (intro conjI ballI impI)
    fix d assume "d \<in> set (corequisitesOf c)"
      and "\<not> (\<exists>e \<in> set (selectedCourses s). e \<noteq> code c \<and> listsCorequisite s e d)"
    then have "d \<notin> set (removeCorequisites s (code c) (corequisitesOf c) (selectedCourses s))"
      by (rule removeCorequisites_removes)
    then show "d \<notin> set (selectedCourses (removeCourse s (code c)))"
      by (simp add: sel set_setDelete)
  next
    fix x assume x: "x \<in> set (selectedCourses s)" and "x \<notin> set (corequisitesOf c)"
    then have "x \<in> set (removeCorequisites s (code c) (corequisitesOf c) (selectedCourses s))"
      by (rule removeCorequisites_keeps)
    moreover from x assms(3) have "x \<noteq> code c" by blast
    ultimately show "x \<in> set (selectedCourses (removeCourse s (code c)))"
      by (simp add: sel set_setDelete)
  qed
qed

text \<open>
  Only \<^verbatim>\<open>CSE215\<close> and the laboratory \<^verbatim>\<open>CSE470L\<close> are selected; removing the lecture
  \<^verbatim>\<open>CSE470\<close>, which is not selected, takes the laboratory away and leaves \<^verbatim>\<open>CSE215\<close>.
\<close>

theorem removeCourse_of_unselected_witness:
  "distinct (map code (courses (addAll (newPlanner scenarioB) [cse215, cse470L]))) \<and>
   cse470 \<in> set (courses (addAll (newPlanner scenarioB) [cse215, cse470L])) \<and>
   code cse470 \<notin> set (selectedCourses (addAll (newPlanner scenarioB) [cse215, cse470L])) \<and>
   ''CSE470L'' \<in> set (selectedCourses (addAll (newPlanner scenarioB) [cse215, cse470L])) \<and>
   ''CSE470L'' \<notin> set (selectedCourses
       (removeCourse (addAll (newPlanner scenarioB) [cse215, cse470L]) (code cse470))) \<and>
   ''CSE215'' \<in> set (selectedCourses
       (removeCourse (addAll (newPlanner scenarioB) [cse215, cse470L]) (code cse470)))"
proof -
  let ?s = "addAll (newPlanner scenarioB) [cse215, cse470L]"
  have h1: "distinct (map code (courses ?s))" by code_simp
  have h2: "cse470 \<in> set (courses ?s)" by code_simp
  have h3: "code cse470 \<notin> set (selectedCourses ?s)" by code_simp
  have m1: "''CSE470L'' \<in> set (selectedCourses ?s)" by code_simp
  have m2: "''CSE215'' \<in> set (selectedCourses ?s)" by code_simp
  have d1: "''CSE470L'' \<in> set (corequisitesOf cse470)" by code_simp
  have d2: "''CSE215'' \<notin> set (corequisitesOf cse470)" by code_simp
  have n: "\<not> (\<exists>e \<in> set (selectedCourses ?s). e \<noteq> code cse470 \<and> listsCorequisite ?s e ''CSE470L'')"
    by code_simp
  note w = removeCourse_of_unselected [OF h1 h2 h3]
  from w d1 n have a: "''CSE470L'' \<notin> set (selectedCourses (removeCourse ?s (code cse470)))"
    by blast
  from w m2 d2 have b: "''CSE215'' \<in> set (selectedCourses (removeCourse ?s (code cse470)))"
    by blast
  from h1 h2 h3 m1 a b show ?thesis by (intro conjI)
qed

text \<open>
  Where no corequisite of the removed course \<open>c\<close> is itself a course that lists \<open>d\<close>, the
  cleanup is exact: a selected corequisite \<open>d\<close> of \<open>c\<close>, other than the code of \<open>c\<close>, remains
  selected if and only if some other course that is still selected lists it.
\<close>

lemma corequisite_cleanup_without_nested_lister:
  assumes "distinct (map code (courses s))" and "c \<in> set (courses s)"
    and "code c \<in> set (selectedCourses s)"
    and "d \<in> set (corequisitesOf c)" and "d \<in> set (selectedCourses s)" and "d \<noteq> code c"
    and "\<forall>e \<in> set (corequisitesOf c). \<not> listsCorequisite s e d"
  shows "d \<in> set (selectedCourses (removeCourse s (code c))) \<longleftrightarrow>
         (\<exists>e \<in> set (selectedCourses (removeCourse s (code c))).
            e \<noteq> code c \<and> listsCorequisite s e d)"
proof -
  let ?k = "code c" and ?sel = "selectedCourses s"
  let ?rc = "removeCorequisites s ?k (corequisitesOf c) ?sel"
  from assms(1,2) have f: "findCourse s ?k = Some c" by (rule findCourse_catalog)
  have post: "set (selectedCourses (removeCourse s ?k)) = set ?rc - {?k}"
    by (simp add: selected_removeCourse [OF f] set_setDelete)
  have sub: "set ?rc \<subseteq> set ?sel" by (rule removeCorequisites_subset)
  show ?thesis
  proof
    assume "d \<in> set (selectedCourses (removeCourse s ?k))"
    with post have "d \<in> set ?rc" by simp
    with removeCorequisites_removes [OF assms(4), of ?sel ?k s]
    obtain e where e: "e \<in> set ?sel" "e \<noteq> ?k" "listsCorequisite s e d" by blast
    with assms(7) have "e \<notin> set (corequisitesOf c)" by blast
    with e(1) have "e \<in> set ?rc" by (rule removeCorequisites_keeps)
    with e post show "\<exists>e \<in> set (selectedCourses (removeCourse s ?k)).
            e \<noteq> ?k \<and> listsCorequisite s e d" by blast
  next
    assume "\<exists>e \<in> set (selectedCourses (removeCourse s ?k)). e \<noteq> ?k \<and> listsCorequisite s e d"
    with post sub have "\<exists>e \<in> set ?sel. e \<noteq> ?k \<and> listsCorequisite s e d" by blast
    with assms(5) have "d \<in> set ?rc" using assms(7) by (rule removeCorequisites_stays)
    with post assms(6) show "d \<in> set (selectedCourses (removeCourse s ?k))" by simp
  qed
qed

text \<open>
  Two lectures share the laboratory \<^verbatim>\<open>CSE470L\<close>; removing \<^verbatim>\<open>CSE470\<close> leaves it selected,
  since \<^verbatim>\<open>CSE471\<close> lists it.
\<close>

lemma corequisite_cleanup_shared_laboratory:
  "distinct (map code (courses (addAll (newPlanner sharedLaboratory) [cse470, cse471]))) \<and>
   cse470 \<in> set (courses (addAll (newPlanner sharedLaboratory) [cse470, cse471])) \<and>
   code cse470 \<in> set (selectedCourses (addAll (newPlanner sharedLaboratory) [cse470, cse471])) \<and>
   corequisitesOf cse470 = [''CSE470L''] \<and>
   ''CSE470L'' \<in> set (selectedCourses (addAll (newPlanner sharedLaboratory) [cse470, cse471])) \<and>
   \<not> listsCorequisite (addAll (newPlanner sharedLaboratory) [cse470, cse471])
       ''CSE470L'' ''CSE470L'' \<and>
   listsCorequisite (addAll (newPlanner sharedLaboratory) [cse470, cse471])
       ''CSE471'' ''CSE470L'' \<and>
   ''CSE470L'' \<in> set (selectedCourses
       (removeCourse (addAll (newPlanner sharedLaboratory) [cse470, cse471]) (code cse470)))"
proof -
  let ?s = "addAll (newPlanner sharedLaboratory) [cse470, cse471]"
  have h1: "distinct (map code (courses ?s))" by code_simp
  have h2: "cse470 \<in> set (courses ?s)" by code_simp
  have h3: "code cse470 \<in> set (selectedCourses ?s)" by code_simp
  have r: "corequisitesOf cse470 = [''CSE470L'']" by code_simp
  have h4: "''CSE470L'' \<in> set (corequisitesOf cse470)" by code_simp
  have h5: "''CSE470L'' \<in> set (selectedCourses ?s)" by code_simp
  have h6: "''CSE470L'' \<noteq> code cse470" by code_simp
  have n: "\<not> listsCorequisite ?s ''CSE470L'' ''CSE470L''" by code_simp
  have h7: "\<forall>e \<in> set (corequisitesOf cse470). \<not> listsCorequisite ?s e ''CSE470L''"
    using n by (simp add: r)
  have l: "listsCorequisite ?s ''CSE471'' ''CSE470L''" by code_simp
  have e: "\<exists>e \<in> set (selectedCourses (removeCourse ?s (code cse470))).
            e \<noteq> code cse470 \<and> listsCorequisite ?s e ''CSE470L''"
    by code_simp
  from corequisite_cleanup_without_nested_lister [OF h1 h2 h3 h4 h5 h6 h7] e
  have "''CSE470L'' \<in> set (selectedCourses (removeCourse ?s (code cse470)))" by blast
  with h1 h2 h3 r h5 n l show ?thesis by (intro conjI)
qed

text \<open>
  C5. After \<open>removeCourse\<close> on a selected catalog course, a corequisite of the course
  should remain selected if and only if some other course that is still selected lists it.
  The source does not achieve this: it examines the corequisites one after the other in the
  order of the list, each against the selection of that moment. \<^verbatim>\<open>PHY107\<close> lists
  \<^verbatim>\<open>PHY107L\<close> and \<^verbatim>\<open>PHY107T\<close>, and \<^verbatim>\<open>PHY107T\<close> lists \<^verbatim>\<open>PHY107L\<close>; adding then
  removing \<^verbatim>\<open>PHY107\<close> keeps \<^verbatim>\<open>PHY107L\<close>, whose lister \<^verbatim>\<open>PHY107T\<close> is still selected
  when it is examined and is removed right after: \<^verbatim>\<open>PHY107L\<close> remains and no selected
  course lists it. With the two corequisites in the other order the same calls leave
  nothing selected.
\<close>

theorem removeCourse_order_dependent:
  "distinct (map code (courses (addCourse (newPlanner nestedCorequisites) ''PHY107''))) \<and>
   phy107 \<in> set (courses (addCourse (newPlanner nestedCorequisites) ''PHY107'')) \<and>
   corequisitesOf phy107 = [''PHY107L'', ''PHY107T''] \<and>
   selectedCourses (addCourse (newPlanner nestedCorequisites) ''PHY107'')
     = [''PHY107L'', ''PHY107T'', ''PHY107''] \<and>
   selectedCourses (removeCourse (addCourse (newPlanner nestedCorequisites) ''PHY107'') ''PHY107'')
     = [''PHY107L''] \<and>
   \<not> (\<exists>e \<in> set (selectedCourses
          (removeCourse (addCourse (newPlanner nestedCorequisites) ''PHY107'') ''PHY107'')).
        e \<noteq> ''PHY107'' \<and>
        listsCorequisite (addCourse (newPlanner nestedCorequisites) ''PHY107'') e ''PHY107L'') \<and>
   corequisitesOf phy107swapped = [''PHY107T'', ''PHY107L''] \<and>
   selectedCourses (addCourse (newPlanner swappedCorequisites) ''PHY107'')
     = [''PHY107T'', ''PHY107L'', ''PHY107''] \<and>
   selectedCourses (removeCourse (addCourse (newPlanner swappedCorequisites) ''PHY107'') ''PHY107'')
     = []"
  by code_simp

section \<open>The selection stays a set\<close>

text \<open>
  The list that stands for the \<^verbatim>\<open>Set\<close> never holds a code twice: the hypothesis
  \<open>distinct (selectedCourses s)\<close> of the theorems of this development holds in every
  state the engine reaches.
\<close>

lemma distinct_removeCorequisites:
  "distinct sel \<Longrightarrow> distinct (removeCorequisites s k ds sel)"
  by (induction ds arbitrary: sel) (simp_all add: distinct_setDelete)

lemma distinct_addCourse:
  "distinct (selectedCourses s) \<Longrightarrow> distinct (selectedCourses (addCourse s k))"
  by (cases "findCourse s k")
    (simp_all add: addCourse_def distinct_setAdd distinct_addCorequisites)

lemma distinct_removeCourse:
  "distinct (selectedCourses s) \<Longrightarrow> distinct (selectedCourses (removeCourse s k))"
proof (cases "findCourse s k")
  case None
  assume "distinct (selectedCourses s)"
  with None show ?thesis by (simp add: removeCourse_def)
next
  case (Some c)
  assume "distinct (selectedCourses s)"
  then show ?thesis
    by (simp add: selected_removeCourse [OF Some] distinct_setDelete distinct_removeCorequisites)
qed

lemma distinct_run:
  "distinct (selectedCourses s) \<Longrightarrow> distinct (selectedCourses (run s es))"
proof (induction es arbitrary: s)
  case Nil
  then show ?case by simp
next
  case (Cons e es)
  then show ?case by (cases e) (simp_all add: distinct_addCourse distinct_removeCourse)
qed

section \<open>The caps along gated additions\<close>

lemma maxCredits_addCourse: "maxCredits (addCourse s k) = maxCredits s"
  by (simp add: addCourse_def split: option.splits)

lemma maxCourses_addCourse: "maxCourses (addCourse s k) = maxCourses s"
  by (simp add: addCourse_def split: option.splits)

lemma sum_resolved:
  "(\<Sum>x\<leftarrow>List.map_filter f ks. credits x)
     = (\<Sum>k\<leftarrow>ks. case f k of None \<Rightarrow> 0 | Some x \<Rightarrow> credits x)"
  by (induction ks) (auto simp: List.map_filter_simps split: option.splits)

lemma sum_resolved_set:
  "distinct ks \<Longrightarrow>
   (\<Sum>x\<leftarrow>List.map_filter f ks. credits x)
     = (\<Sum>k\<in>set ks. case f k of None \<Rightarrow> 0 | Some x \<Rightarrow> credits x)"
  by (simp add: sum_resolved sum_list_distinct_conv_sum_set)

lemma selected_after_gated_add:
  assumes f: "findCourse s (code c) = Some c" and n: "code c \<notin> set (selectedCourses s)"
  shows "set (selectedCourses (addCourse s (code c)))
           = set (selectedCourses s) \<union> ({code c} \<union> set (autoAdded s c))"
    and "set (selectedCourses s) \<inter> ({code c} \<union> set (autoAdded s c)) = {}"
    and "{code c} \<inter> set (autoAdded s c) = {}"
  using n by (auto simp: selected_addCourse [OF f] autoAdded_def)

lemma gated_step_exact:
  assumes d: "distinct (map code (courses s))" and sel: "distinct (selectedCourses s)"
    and c: "c \<in> set (courses s)" and av: "isCourseAvailable s c"
  shows "(\<Sum>x\<leftarrow>List.map_filter (findCourse (addCourse s (code c)))
                (selectedCourses (addCourse s (code c))). credits x)
           = (\<Sum>x\<leftarrow>List.map_filter (findCourse s) (selectedCourses s). credits x)
             + credits c
             + (\<Sum>x\<leftarrow>List.map_filter (findCourse s) (autoAdded s c). credits x)"
    and "card (set (selectedCourses (addCourse s (code c))))
           = card (set (selectedCourses s)) + 1 + length (autoAdded s c)"
proof -
  let ?s' = "addCourse s (code c)"
  let ?w = "\<lambda>k. case findCourse s k of None \<Rightarrow> 0 | Some x \<Rightarrow> credits x"
  let ?A = "set (selectedCourses s)" and ?N = "set (autoAdded s c)"
  from d c have f: "findCourse s (code c) = Some c" by (rule findCourse_catalog)
  from av have n: "code c \<notin> ?A"
    by (auto simp: isCourseAvailable_def split: if_splits)
  note parts = selected_after_gated_add [OF f n]
  have fc: "findCourse ?s' = findCourse s"
    by (rule findCourse_cong) (rule courses_addCourse)
  have ds': "distinct (selectedCourses ?s')" using sel by (rule distinct_addCourse)
  have dn: "distinct (autoAdded s c)" by (simp add: autoAdded_def)
  have "(\<Sum>x\<leftarrow>List.map_filter (findCourse ?s') (selectedCourses ?s'). credits x)
      = sum ?w (?A \<union> ({code c} \<union> ?N))"
    by (simp add: fc sum_resolved_set [OF ds'] parts(1))
  also have "\<dots> = sum ?w ?A + sum ?w ({code c} \<union> ?N)"
    using parts(2) by (intro sum.union_disjoint) simp_all
  also have "sum ?w ({code c} \<union> ?N) = sum ?w {code c} + sum ?w ?N"
    using parts(3) by (intro sum.union_disjoint) simp_all
  also have "sum ?w {code c} = credits c" by (simp add: f)
  finally show "(\<Sum>x\<leftarrow>List.map_filter (findCourse ?s') (selectedCourses ?s'). credits x)
           = (\<Sum>x\<leftarrow>List.map_filter (findCourse s) (selectedCourses s). credits x)
             + credits c
             + (\<Sum>x\<leftarrow>List.map_filter (findCourse s) (autoAdded s c). credits x)"
    by (simp add: sum_resolved_set [OF sel] sum_resolved_set [OF dn])
  have "card (?A \<union> ({code c} \<union> ?N)) = card ?A + card ({code c} \<union> ?N)"
    using parts(2) by (intro card_Un_disjoint) simp_all
  moreover have "card ({code c} \<union> ?N) = 1 + card ?N"
    using parts(3) by simp
  moreover have "card ?N = length (autoAdded s c)"
    using dn by (rule distinct_card)
  ultimately show "card (set (selectedCourses ?s'))
           = card ?A + 1 + length (autoAdded s c)"
    by (simp add: parts(1))
qed

lemma gated_step_bounds:
  assumes d: "distinct (map code (courses s))" and sel: "distinct (selectedCourses s)"
    and c: "c \<in> set (courses s)" and av: "isCourseAvailable s c"
  shows "(\<Sum>x\<leftarrow>List.map_filter (findCourse (addCourse s (code c)))
                (selectedCourses (addCourse s (code c))). credits x)
           \<le> maxCredits s + (\<Sum>x\<leftarrow>List.map_filter (findCourse s) (autoAdded s c). credits x)"
    and "int (card (set (selectedCourses (addCourse s (code c)))))
           \<le> maxCourses s + int (length (autoAdded s c))"
proof -
  from av have "getSelectedCredits s + credits c \<le> maxCredits s"
    and "int (length (selectedCourses s)) + 1 \<le> maxCourses s"
    by (auto simp: isCourseAvailable_def getSelectedCourseCount_def split: if_splits)
  then have cr: "(\<Sum>x\<leftarrow>List.map_filter (findCourse s) (selectedCourses s). credits x)
        + credits c \<le> maxCredits s"
    and cn: "int (card (set (selectedCourses s))) + 1 \<le> maxCourses s"
    using sel by (simp_all add: getSelectedCredits_resolved distinct_card)
  from cr show "(\<Sum>x\<leftarrow>List.map_filter (findCourse (addCourse s (code c)))
                (selectedCourses (addCourse s (code c))). credits x)
           \<le> maxCredits s + (\<Sum>x\<leftarrow>List.map_filter (findCourse s) (autoAdded s c). credits x)"
    unfolding gated_step_exact(1) [OF assms] by simp
  from cn show "int (card (set (selectedCourses (addCourse s (code c)))))
           \<le> maxCourses s + int (length (autoAdded s c))"
    unfolding gated_step_exact(2) [OF assms] by simp
qed

lemma findCourse_fun: "findCourse s = (\<lambda>k. find (\<lambda>x. code x = k) (courses s))"
  by (simp add: fun_eq_iff findCourse_def)

lemma addAll_snoc: "addAll s (cs @ [c]) = addCourse (addAll s cs) (code c)"
  by (induction cs arbitrary: s) simp_all

lemma addAll_take_Suc:
  "n < length cs \<Longrightarrow> addAll s (take (Suc n) cs) = addCourse (addAll s (take n cs)) (code (cs ! n))"
  by (simp add: take_Suc_conv_app_nth addAll_snoc)

lemma courses_addAll: "courses (addAll s cs) = courses s"
  by (induction cs arbitrary: s) (simp_all add: courses_addCourse)

lemma distinct_addAll:
  "distinct (selectedCourses s) \<Longrightarrow> distinct (selectedCourses (addAll s cs))"
  by (induction cs arbitrary: s) (simp_all add: distinct_addCourse)

lemma gatedAdds_nth:
  "gatedAdds s cs \<Longrightarrow> n < length cs \<Longrightarrow>
   cs ! n \<in> set (courses s) \<and> isCourseAvailable (addAll s (take n cs)) (cs ! n)"
proof (induction cs arbitrary: s n)
  case Nil
  then show ?case by simp
next
  case (Cons c cs)
  show ?case
  proof (cases n)
    case 0
    with Cons.prems show ?thesis by simp
  next
    case (Suc m)
    with Cons.prems have "gatedAdds (addCourse s (code c)) cs" and "m < length cs" by simp_all
    from Cons.IH [OF this] Suc show ?thesis by (simp add: courses_addCourse)
  qed
qed

lemma maxCredits_addAll: "maxCredits (addAll s cs) = maxCredits s"
  by (induction cs arbitrary: s) (simp_all add: maxCredits_addCourse)

lemma maxCourses_addAll: "maxCourses (addAll s cs) = maxCourses s"
  by (induction cs arbitrary: s) (simp_all add: maxCourses_addCourse)

text \<open>
  C1, as stated, fails: \<open>addCourse\<close> selects the corequisites of the course without
  testing anything, and the gate only counts the course itself. With 11 credits selected,
  \<^verbatim>\<open>CSE470\<close> (3 credits) is available under the cap of 14; adding it brings its laboratory
  (1 credit) along, 15 credits in all. With \<open>maxCourses\<close> set to 4 the same call is
  gated as the fourth course and leaves five codes selected.
\<close>

theorem caps_respected_counterexample:
  "distinct (map code (courses (newPlanner scenarioB))) \<and>
   selectedCourses (newPlanner scenarioB) = [] \<and>
   maxCredits (newPlanner scenarioB) = 14 \<and>
   gatedAdds (newPlanner scenarioB) [cse215, cse225, mat250, cse470] \<and>
   getSelectedCredits (addAll (newPlanner scenarioB) [cse215, cse225, mat250, cse470]) = 15 \<and>
   \<not> getSelectedCredits (addAll (newPlanner scenarioB) [cse215, cse225, mat250, cse470])
       \<le> maxCredits (addAll (newPlanner scenarioB) [cse215, cse225, mat250, cse470]) \<and>
   selectedCourses ((newPlanner scenarioB)\<lparr>maxCourses := 4\<rparr>) = [] \<and>
   gatedAdds ((newPlanner scenarioB)\<lparr>maxCourses := 4\<rparr>) [cse215, cse225, mat250, cse470] \<and>
   card (set (selectedCourses
      (addAll ((newPlanner scenarioB)\<lparr>maxCourses := 4\<rparr>) [cse215, cse225, mat250, cse470]))) = 5 \<and>
   \<not> int (card (set (selectedCourses
      (addAll ((newPlanner scenarioB)\<lparr>maxCourses := 4\<rparr>) [cse215, cse225, mat250, cse470]))))
       \<le> maxCourses
           (addAll ((newPlanner scenarioB)\<lparr>maxCourses := 4\<rparr>) [cse215, cse225, mat250, cse470])"
  by code_simp

text \<open>
  C1, amended. Start from a state with nothing selected, over a catalog with unique codes.
  For every sequence of \<open>addCourse\<close> calls, each made on a catalog course for which
  \<open>isCourseAvailable\<close> held just before, after every call (the call number \<open>n\<close>, counted
  from 0) the sum of the catalog credits of the selected codes is at most \<open>maxCredits\<close>
  plus the catalog credits of the corequisites that this call brought along, and the number
  of selected codes is at most \<open>maxCourses\<close> plus the number of these corequisites. In
  particular both caps hold after every call that brings no corequisite along, whatever the
  calls before it did.
\<close>

theorem caps_respected:
  assumes "distinct (map code (courses s0))" and "selectedCourses s0 = []"
    and "gatedAdds s0 cs" and "n < length cs"
  shows
    "(\<Sum>x\<leftarrow>List.map_filter (\<lambda>k. find (\<lambda>x. code x = k) (courses s0)) (selectedCourses (addAll s0 (take (Suc n) cs))).
        credits x)
       \<le> maxCredits s0
          + (\<Sum>x\<leftarrow>List.map_filter (\<lambda>k. find (\<lambda>x. code x = k) (courses s0))
                  (autoAdded (addAll s0 (take n cs)) (cs ! n)). credits x) \<and>
     int (card (set (selectedCourses (addAll s0 (take (Suc n) cs)))))
       \<le> maxCourses s0 + int (length (autoAdded (addAll s0 (take n cs)) (cs ! n))) \<and>
     (autoAdded (addAll s0 (take n cs)) (cs ! n) = [] \<longrightarrow>
        (\<Sum>x\<leftarrow>List.map_filter (\<lambda>k. find (\<lambda>x. code x = k) (courses s0)) (selectedCourses (addAll s0 (take (Suc n) cs))).
           credits x) \<le> maxCredits s0 \<and>
        int (card (set (selectedCourses (addAll s0 (take (Suc n) cs))))) \<le> maxCourses s0)"
proof -
  let ?s = "addAll s0 (take n cs)" and ?c = "cs ! n"
  have cs: "courses ?s = courses s0" by (rule courses_addAll)
  have fs: "findCourse ?s = findCourse s0" using cs by (rule findCourse_cong)
  have fs': "findCourse (addCourse ?s (code ?c)) = findCourse s0"
    by (rule findCourse_cong) (simp add: courses_addCourse cs)
  have d: "distinct (map code (courses ?s))" using assms(1) by (simp add: cs)
  have sel: "distinct (selectedCourses ?s)"
    by (rule distinct_addAll) (simp add: assms(2))
  from gatedAdds_nth [OF assms(3,4)]
  have c: "?c \<in> set (courses ?s)" and av: "isCourseAvailable ?s ?c" by (simp_all add: cs)
  note b = gated_step_bounds [OF d sel c av, unfolded fs fs' maxCredits_addAll maxCourses_addAll]
  from b [unfolded findCourse_fun] show ?thesis
    unfolding addAll_take_Suc [OF assms(4)] by (auto simp: List.map_filter_simps)
qed

text \<open>
  The third call brings nothing along and both caps hold; the fourth is Scenario B at the
  credit cap: it brings \<^verbatim>\<open>CSE470L\<close> (1 credit) along and ends one credit above the cap.
\<close>

theorem caps_respected_witness:
  "distinct (map code (courses (newPlanner scenarioB))) \<and>
   selectedCourses (newPlanner scenarioB) = [] \<and>
   gatedAdds (newPlanner scenarioB) [cse215, cse225, mat250, cse470] \<and>
   autoAdded (addAll (newPlanner scenarioB) [cse215, cse225]) mat250 = [] \<and>
   (\<Sum>x\<leftarrow>List.map_filter (\<lambda>k. find (\<lambda>x. code x = k) (courses (newPlanner scenarioB)))
        (selectedCourses (addAll (newPlanner scenarioB) [cse215, cse225, mat250])). credits x) \<le> 14 \<and>
   int (card (set (selectedCourses (addAll (newPlanner scenarioB) [cse215, cse225, mat250])))) \<le> 8 \<and>
   autoAdded (addAll (newPlanner scenarioB) [cse215, cse225, mat250]) cse470 = [''CSE470L''] \<and>
   (\<Sum>x\<leftarrow>List.map_filter (\<lambda>k. find (\<lambda>x. code x = k) (courses (newPlanner scenarioB)))
        (selectedCourses (addAll (newPlanner scenarioB) [cse215, cse225, mat250, cse470])).
      credits x) \<le> 14 + 1 \<and>
   int (card (set (selectedCourses
        (addAll (newPlanner scenarioB) [cse215, cse225, mat250, cse470])))) \<le> 8 + 1"
proof -
  let ?s = "newPlanner scenarioB" and ?cs = "[cse215, cse225, mat250, cse470]"
  have h1: "distinct (map code (courses ?s))" by code_simp
  have h2: "selectedCourses ?s = []" by (simp add: newPlanner_def)
  have h3: "gatedAdds ?s ?cs" by code_simp
  have m: "maxCredits ?s = 14" "maxCourses ?s = 8" by (simp_all add: newPlanner_def)
  have t2: "take 2 ?cs = [cse215, cse225]" "take (Suc 2) ?cs = [cse215, cse225, mat250]"
    "?cs ! 2 = mat250" by simp_all
  have t3: "take 3 ?cs = [cse215, cse225, mat250]" "take (Suc 3) ?cs = ?cs"
    "?cs ! 3 = cse470" by simp_all
  have a2: "autoAdded (addAll ?s [cse215, cse225]) mat250 = []" by code_simp
  have a3: "autoAdded (addAll ?s [cse215, cse225, mat250]) cse470 = [''CSE470L'']" by code_simp
  have l3: "(\<Sum>x\<leftarrow>List.map_filter (\<lambda>k. find (\<lambda>x. code x = k) (courses ?s)) [''CSE470L'']. credits x) = 1" by code_simp
  from caps_respected [OF h1 h2 h3, of 2] a2
  have w2: "(\<Sum>x\<leftarrow>List.map_filter (\<lambda>k. find (\<lambda>x. code x = k) (courses ?s))
        (selectedCourses (addAll ?s [cse215, cse225, mat250])). credits x) \<le> 14"
    "int (card (set (selectedCourses (addAll ?s [cse215, cse225, mat250])))) \<le> 8"
    unfolding t2 m by simp_all
  from caps_respected [OF h1 h2 h3, of 3]
  have w3: "(\<Sum>x\<leftarrow>List.map_filter (\<lambda>k. find (\<lambda>x. code x = k) (courses ?s)) (selectedCourses (addAll ?s ?cs)). credits x)
       \<le> 14 + 1"
    "int (card (set (selectedCourses (addAll ?s ?cs)))) \<le> 8 + 1"
    unfolding t3 m a3 l3 by simp_all
  from h1 h2 h3 a2 w2 a3 w3 show ?thesis by (intro conjI)
qed

section \<open>Alternative groups along gated calls\<close>

lemma removeCourse_subset: "set (selectedCourses (removeCourse s k)) \<subseteq> set (selectedCourses s)"
proof (cases "findCourse s k")
  case None
  then show ?thesis by (simp add: removeCourse_def)
next
  case (Some c)
  from removeCorequisites_subset [of s k "corequisitesOf c" "selectedCourses s"]
  show ?thesis by (auto simp: selected_removeCourse [OF Some] set_setDelete)
qed

lemma exclusive_subset: "exclusive g sel \<Longrightarrow> set sel' \<subseteq> set sel \<Longrightarrow> exclusive g sel'"
  unfolding exclusive_def by blast

lemma exclusive_addCourse:
  assumes g: "g \<in> set alternativeGroups" and ex: "exclusive g (selectedCourses s)"
    and av: "isCourseAvailable s c"
    and co: "\<forall>c \<in> set (courses s). \<forall>d \<in> set (corequisitesOf c). \<forall>g \<in> set alternativeGroups. d \<notin> set g"
  shows "exclusive g (selectedCourses (addCourse s (code c)))"
proof (cases "findCourse s (code c)")
  case None
  with ex show ?thesis by (simp add: addCourse_def)
next
  case (Some c')
  then have "c' \<in> set (courses s)" by (rule findCourse_mem)
  with co g have nog: "\<forall>d \<in> set (corequisitesOf c'). d \<notin> set g" by blast
  from av have "\<not> wouldViolateAlternatives s (code c)"
    by (auto simp: isCourseAvailable_def split: if_splits)
  with g have alone: "code c \<in> set g \<Longrightarrow> d \<in> set g \<Longrightarrow> d \<in> set (selectedCourses s) \<Longrightarrow> d = code c" for d
    unfolding wouldViolateAlternatives_iff by blast
  show ?thesis
    unfolding exclusive_def selected_addCourse [OF Some]
    using ex nog alone unfolding exclusive_def by blast
qed

lemma gated_exclusive:
  "g \<in> set alternativeGroups \<Longrightarrow> exclusive g (selectedCourses s) \<Longrightarrow>
   \<forall>c \<in> set (courses s). \<forall>d \<in> set (corequisitesOf c). \<forall>g \<in> set alternativeGroups. d \<notin> set g \<Longrightarrow>
   gated s es \<Longrightarrow> exclusive g (selectedCourses (run s es))"
proof (induction s es rule: gated.induct)
  case (1 s)
  then show ?case by simp
next
  case (2 s c es)
  from "2.prems" have "exclusive g (selectedCourses (addCourse s (code c)))"
    by (intro exclusive_addCourse) simp_all
  with "2.IH" "2.prems" show ?case by (simp add: courses_addCourse)
next
  case (3 s k es)
  from "3.prems"(2) removeCourse_subset have "exclusive g (selectedCourses (removeCourse s k))"
    by (rule exclusive_subset)
  with "3.IH" "3.prems" show ?case by (simp add: courses_removeCourse)
qed

text \<open>
  C4, as stated, fails for the same reason as C1: a corequisite is selected without the
  test of \<open>wouldViolateAlternatives\<close>. \<^verbatim>\<open>HIS205\<close> belongs to no group and lists
  \<^verbatim>\<open>POL104\<close>; after \<^verbatim>\<open>POL101\<close>, the gated addition of \<^verbatim>\<open>HIS205\<close> selects \<^verbatim>\<open>POL104\<close>
  too, and two members of the first group are selected.
\<close>

theorem alternatives_exclusive_counterexample:
  "selectedCourses (newPlanner withGroupCorequisite) = [] \<and>
   gated (newPlanner withGroupCorequisite) [Add pol101, Add his205] \<and>
   [''POL101'', ''POL104''] \<in> set alternativeGroups \<and>
   selectedCourses (run (newPlanner withGroupCorequisite) [Add pol101, Add his205])
     = [''POL101'', ''POL104'', ''HIS205''] \<and>
   \<not> exclusive [''POL101'', ''POL104'']
       (selectedCourses (run (newPlanner withGroupCorequisite) [Add pol101, Add his205]))"
  by code_simp

text \<open>
  C4, amended. Provided no catalog course lists a member of an alternative group among its
  corequisites: for every alternative group, in every state reached from a state with
  nothing selected by \<open>addCourse\<close> calls gated on \<open>isCourseAvailable\<close> and by \<open>removeCourse\<close>
  calls, at most one member of the group is selected. In particular (Scenario A, default
  caps), after adding \<^verbatim>\<open>POL101\<close> the course \<^verbatim>\<open>POL104\<close> is not available, and after
  removing \<^verbatim>\<open>POL101\<close> it is available again.
\<close>

theorem alternatives_exclusive:
  assumes "selectedCourses s0 = []"
    and "\<forall>c \<in> set (courses s0). \<forall>d \<in> set (corequisitesOf c).
           \<forall>g \<in> set alternativeGroups. d \<notin> set g"
    and "gated s0 es" and "g \<in> set alternativeGroups"
  shows "exclusive g (selectedCourses (run s0 es)) \<and>
         \<not> isCourseAvailable (run (newPlanner scenarioA) [Add pol101]) pol104 \<and>
         isCourseAvailable (run (newPlanner scenarioA) [Add pol101, Remove ''POL101'']) pol104"
proof (intro conjI)
  have "exclusive g (selectedCourses s0)" using assms(1) by (simp add: exclusive_def)
  with assms(4) show "exclusive g (selectedCourses (run s0 es))"
    using assms(2,3) by (rule gated_exclusive)
  show "\<not> isCourseAvailable (run (newPlanner scenarioA) [Add pol101]) pol104" by code_simp
  show "isCourseAvailable (run (newPlanner scenarioA) [Add pol101, Remove ''POL101'']) pol104"
    by code_simp
qed

text \<open>Scenario A continued: \<^verbatim>\<open>POL101\<close> is added and removed, then \<^verbatim>\<open>POL104\<close> is added.\<close>

theorem alternatives_exclusive_witness:
  "selectedCourses (newPlanner scenarioA) = [] \<and>
   gated (newPlanner scenarioA) [Add pol101, Remove ''POL101'', Add pol104] \<and>
   [''POL101'', ''POL104''] \<in> set alternativeGroups \<and>
   exclusive [''POL101'', ''POL104'']
     (selectedCourses (run (newPlanner scenarioA) [Add pol101, Remove ''POL101'', Add pol104])) \<and>
   selectedCourses (run (newPlanner scenarioA) [Add pol101, Remove ''POL101'', Add pol104])
     = [''POL104'']"
proof -
  let ?s = "newPlanner scenarioA" and ?es = "[Add pol101, Remove ''POL101'', Add pol104]"
  have h1: "selectedCourses ?s = []" by (simp add: newPlanner_def)
  have h2: "\<forall>c \<in> set (courses ?s). \<forall>d \<in> set (corequisitesOf c).
           \<forall>g \<in> set alternativeGroups. d \<notin> set g"
    by (simp add: newPlanner_def scenarioA_def pol101_def pol104_def mkCourse_def corequisitesOf_def)
  have h3: "gated ?s ?es" by code_simp
  have h4: "[''POL101'', ''POL104''] \<in> set alternativeGroups" by (simp add: alternativeGroups_def)
  have v: "selectedCourses (run ?s ?es) = [''POL104'']" by code_simp
  from alternatives_exclusive [OF h1 h2 h3 h4]
  have "exclusive [''POL101'', ''POL104''] (selectedCourses (run ?s ?es))" by (rule conjunct1)
  with h1 h3 h4 v show ?thesis by (intro conjI)
qed

section \<open>The trail choice on addition\<close>

text \<open>
  The dictionary built by \<open>countTrails\<close> holds, for each category, the number of resolved
  trail courses of that category, and no entry where that number is zero.
\<close>

lemma fold_trail_count:
  "fold (\<lambda>c m. m(category c \<mapsto> (case m (category c) of None \<Rightarrow> 0 | Some n \<Rightarrow> n) + 1)) cs m k
     = (if filter (\<lambda>c. category c = k) cs = [] then m k
        else Some ((case m k of None \<Rightarrow> 0 | Some n \<Rightarrow> n)
                    + length (filter (\<lambda>c. category c = k) cs)))"
  by (induction cs arbitrary: m) (auto split: option.splits)

lemma countTrails_count:
  "countTrails cs k
     = (if filter (\<lambda>c. category c = k) cs = [] then None
        else Some (length (filter (\<lambda>c. category c = k) cs)))"
  unfolding countTrails_def fold_trail_count by simp

lemma countFor_count:
  "\<forall>c \<in> set cs. category c \<noteq> [] \<Longrightarrow>
   countFor (countTrails cs) v = length (filter (\<lambda>c. Some (category c) = v) cs)"
proof (cases v)
  case None
  then show ?thesis by (simp add: countFor_def)
next
  case (Some k)
  assume ne: "\<forall>c \<in> set cs. category c \<noteq> []"
  have eq: "filter (\<lambda>c. Some (category c) = Some k) cs = filter (\<lambda>c. category c = k) cs"
    by simp
  show ?thesis
  proof (cases "k = []")
    case True
    with ne have "filter (\<lambda>c. category c = k) cs = []" by (auto simp: filter_empty_conv)
    with True Some show ?thesis by (simp add: countFor_def)
  next
    case False
    with Some show ?thesis by (simp add: countFor_def countTrails_count)
  qed
qed

lemma str_includes_nonempty: "str_includes k ''Trail'' \<Longrightarrow> k \<noteq> []"
  by auto

lemma resolveTrailCourses_trail:
  "c \<in> set (resolveTrailCourses s ks) \<Longrightarrow> str_includes (category c) ''Trail''"
  by (induction ks) (auto split: option.splits if_splits)

lemma firstTrailCourses_count:
  "firstTrailCourses (getSelectedElectiveTrails s)
     = length (filter (\<lambda>x. Some (category x) = firstTrail (electiveTrailSelections s))
                 (trailCourses (getSelectedElectiveTrails s)))"
proof -
  have "\<forall>c \<in> set (resolveTrailCourses s (selectedCourses s)). category c \<noteq> []"
    using resolveTrailCourses_trail str_includes_nonempty by blast
  then show ?thesis
    by (simp add: getSelectedElectiveTrails_def Let_def countFor_count)
qed






section \<open>Filtering\<close>

text \<open>
  The count that \<open>getSelectedElectiveTrails\<close> reports for the first trail is the number of
  selected codes whose catalog course is a trail course of that category.
\<close>

lemma length_filter_resolveTrailCourses:
  "length (filter P (resolveTrailCourses s ks))
     = length (filter (\<lambda>k. case findCourse s k of None \<Rightarrow> False
                           | Some x \<Rightarrow> str_includes (category x) ''Trail'' \<and> P x) ks)"
  by (induction ks) (auto split: option.splits)

lemma firstTrailCourses_selected:
  "firstTrailCourses (getSelectedElectiveTrails s)
     = length (filter
         (\<lambda>k. case find (\<lambda>x. code x = k) (courses s) of
                 None \<Rightarrow> False
               | Some x \<Rightarrow> str_includes (category x) ''Trail'' \<and>
                           Some (category x) = firstTrail (electiveTrailSelections s))
         (selectedCourses s))"
  unfolding firstTrailCourses_count
  by (simp add: getSelectedElectiveTrails_def Let_def length_filter_resolveTrailCourses
      findCourse_def)

text \<open>
  C7. For every list of courses, search term, category filter and type filter, the result
  of \<open>filterCourses\<close> is a subsequence of the list in the same order, and a course of the
  list that passes the search, category and type tests is left out exactly when its
  category contains \<^verbatim>\<open>Trail\<close>, a first trail is chosen, fewer than two of the selected
  codes resolve to a course of the first trail, and its category is not the first trail.
\<close>

theorem filterCourses_gate:
  "subseq (filterCourses lower s cs searchTerm categoryFilter typeFilter) cs \<and>
   (\<forall>c \<in> set cs.
      (searchTerm = [] \<or> str_includes (lower (code c)) (lower searchTerm)
         \<or> str_includes (lower (name c)) (lower searchTerm)
         \<or> str_includes (lower (category c)) (lower searchTerm)) \<and>
      (categoryFilter = [] \<or> category c = categoryFilter) \<and>
      (typeFilter = [] \<or> type c = typeFilter) \<longrightarrow>
      (c \<notin> set (filterCourses lower s cs searchTerm categoryFilter typeFilter) \<longleftrightarrow>
         str_includes (category c) ''Trail'' \<and>
         truthy (firstTrail (electiveTrailSelections s)) \<and>
         length (filter
           (\<lambda>k. case find (\<lambda>x. code x = k) (courses s) of
                   None \<Rightarrow> False
                 | Some x \<Rightarrow> str_includes (category x) ''Trail'' \<and>
                             Some (category x) = firstTrail (electiveTrailSelections s))
           (selectedCourses s)) < 2 \<and>
         Some (category c) \<noteq> firstTrail (electiveTrailSelections s)))"
  unfolding firstTrailCourses_selected [symmetric]
  by (auto simp: filterCourses_def keepCourse_def)

text \<open>
  After one course of the AI trail, the course of the networks trail is hidden; after two,
  it is shown again.
\<close>

theorem filterCourses_gate_witness:
  "net1 \<in> set scenarioC \<and> category net1 = ''Networks Trail'' \<and>
   net1 \<notin> set (filterCourses id (addAll (newPlanner scenarioC) [ai1]) scenarioC [] [] []) \<and>
   net1 \<in> set (filterCourses id (addAll (newPlanner scenarioC) [ai1, ai2]) scenarioC [] [] []) \<and>
   subseq (filterCourses id (addAll (newPlanner scenarioC) [ai1]) scenarioC [] [] []) scenarioC"
proof -
  let ?s = "addAll (newPlanner scenarioC) [ai1]"
  let ?t = "addAll (newPlanner scenarioC) [ai1, ai2]"
  have m: "net1 \<in> set scenarioC" by code_simp
  have k: "category net1 = ''Networks Trail''" by (simp add: net1_def mkCourse_def)
  have g: "str_includes (category net1) ''Trail'' \<and>
         truthy (firstTrail (electiveTrailSelections ?s)) \<and>
         length (filter
           (\<lambda>k. case find (\<lambda>x. code x = k) (courses ?s) of
                   None \<Rightarrow> False
                 | Some x \<Rightarrow> str_includes (category x) ''Trail'' \<and>
                             Some (category x) = firstTrail (electiveTrailSelections ?s))
           (selectedCourses ?s)) < 2 \<and>
         Some (category net1) \<noteq> firstTrail (electiveTrailSelections ?s)"
    by code_simp
  have g': "\<not> length (filter
           (\<lambda>k. case find (\<lambda>x. code x = k) (courses ?t) of
                   None \<Rightarrow> False
                 | Some x \<Rightarrow> str_includes (category x) ''Trail'' \<and>
                             Some (category x) = firstTrail (electiveTrailSelections ?t))
           (selectedCourses ?t)) < 2"
    by code_simp
  note w = filterCourses_gate [of id ?s scenarioC "[]" "[]" "[]"]
  note w' = filterCourses_gate [of id ?t scenarioC "[]" "[]" "[]"]
  from w m g have a: "net1 \<notin> set (filterCourses id ?s scenarioC [] [] [])" by blast
  from w' m g' have b: "net1 \<in> set (filterCourses id ?t scenarioC [] [] [])" by blast
  from w have c: "subseq (filterCourses id ?s scenarioC [] [] []) scenarioC" by (rule conjunct1)
  from m k a b c show ?thesis by (intro conjI)
qed

end
